theory Spec2Isabelle
  imports Complex_Main
begin

section \<open>Data model\<close>

text \<open>
  The amortization engine computes on JavaScript numbers. They are embedded as HOL reals:
  every arithmetic operation is exact, there is no rounding, no NaN and no infinity.
  All results below are statements about this exact-arithmetic reading of the code.
  The code itself computes in IEEE-754 doubles, where every operation rounds. A statement
  below carries over to the running code as it stands when it says which expression a field
  holds or how rows and stored balances relate, or when it allows a tolerance that absorbs
  the rounding. An exact equation of the model between values computed along different
  paths holds in the code up to rounding only: in doubles \<open>(1 / 49) * 49\<close> is below 1, and
  \<open>(a + e) - a\<close> need not be \<open>e\<close>.

  Month counters, the term and row counts are natural numbers. The calendar date is kept
  as a month index (an integer): the start date is the index of the first month and
  \<open>setMonth (getMonth () + month - 1)\<close> adds \<open>month - 1\<close> to it. The day of the month, and
  with it the overflow of \<open>setMonth\<close> into the following month for start days 29 to 31, is
  not represented; no statement below mentions the date.

  Division by zero is 0 in HOL and an infinity or NaN in JavaScript. The payment divides by
  the term when the rate is zero, and by \<open>(1 + r) ^ N - 1\<close> otherwise; for a term of at least
  one month and a non-negative rate neither divisor is zero (lemma \<open>growth_gt_one\<close>). With a
  term of 0 the loop emits no row, so the payment is never used. The only other zero
  divisor is at the rate -2400 with an even term, where the embedding does not represent
  what the code computes.
\<close>

record MortgageInputs =
  principal :: real
  annualRate :: real
  termMonths :: nat
  startDate :: int
  extraMonthlyPayment :: real

record PaymentRow =
  month :: nat
  date :: int
  basePayment :: real
  extraPayment :: real
  totalPayment :: real
  principalPaid :: real
  interestPaid :: real
  remainingBalance :: real

record ScenarioOverride =
  extraMonthlyPrincipal :: real
  lumpSumPayments :: "nat \<rightharpoonup> real"

record ScenarioSummary =
  totalInterestPaid :: real
  totalPaid :: real
  monthsToPayoff :: nat
  interestSaved :: real
  monthsSaved :: int

section \<open>Payment calculator\<close>

definition calculateMonthlyPayment :: "real \<Rightarrow> real \<Rightarrow> nat \<Rightarrow> real" where
  "calculateMonthlyPayment principal' annualRate' termMonths' =
     (let monthlyRate = annualRate' / 100 / 12 in
      if monthlyRate = 0 then principal' / real termMonths'
      else
        let numerator = monthlyRate * (1 + monthlyRate) ^ termMonths';
            denominator = (1 + monthlyRate) ^ termMonths' - 1
        in principal' * (numerator / denominator))"

section \<open>Schedule generator\<close>

text \<open>
  The body of the \<open>for\<close> loop. The loop variables are the month counter and the running
  balance; \<open>monthlyRate\<close> and \<open>basePayment\<close> are the constants computed before the loop.
  Each iteration emits one row; the \<open>break\<close> after \<open>push\<close> ends the list.
\<close>

function scheduleLoop ::
  "MortgageInputs \<Rightarrow> ScenarioOverride option \<Rightarrow> real \<Rightarrow> real \<Rightarrow> nat \<Rightarrow> real \<Rightarrow> PaymentRow list"
where
  "scheduleLoop inputs overrides monthlyRate basePayment' month' remainingBalance' =
     (if month' \<le> termMonths inputs \<and> remainingBalance' > 0.01 then
        let date' = startDate inputs + int month' - 1;
            interestPaid' = remainingBalance' * monthlyRate;
            principalPaid0 = basePayment' - interestPaid';
            extraMonthlyPrincipal' =
              (case overrides of None \<Rightarrow> 0 | Some ov \<Rightarrow> extraMonthlyPrincipal ov);
            lumpSum =
              (case overrides of None \<Rightarrow> 0
               | Some ov \<Rightarrow> (case lumpSumPayments ov month' of None \<Rightarrow> 0 | Some v \<Rightarrow> v));
            extraPayment' = extraMonthlyPrincipal' + lumpSum;
            maxPrincipal = remainingBalance';
            principalPaid' = min (principalPaid0 + extraPayment') maxPrincipal;
            actualExtra = principalPaid' - (basePayment' - interestPaid');
            newBalance = remainingBalance' - principalPaid';
            totalPayment' = basePayment' + actualExtra + extraMonthlyPayment inputs;
            row = \<lparr> month = month', date = date', basePayment = basePayment',
                    extraPayment = actualExtra, totalPayment = totalPayment',
                    principalPaid = principalPaid', interestPaid = interestPaid',
                    remainingBalance = max 0 newBalance \<rparr>
        in row # (if newBalance \<le> 0.01 then []
                  else scheduleLoop inputs overrides monthlyRate basePayment' (month' + 1) newBalance)
      else [])"
  by pat_completeness auto
termination
  by (relation "measure (\<lambda>(inputs, overrides, monthlyRate, basePayment', month', remainingBalance').
        termMonths inputs + 1 - month')") auto

declare scheduleLoop.simps [simp del]

definition generateAmortizationSchedule ::
  "MortgageInputs \<Rightarrow> ScenarioOverride option \<Rightarrow> PaymentRow list" where
  "generateAmortizationSchedule inputs overrides =
     (let monthlyRate = annualRate inputs / 100 / 12;
          basePayment' = calculateMonthlyPayment (principal inputs) (annualRate inputs) (termMonths inputs)
      in scheduleLoop inputs overrides monthlyRate basePayment' 1 (principal inputs))"

section \<open>Summary reducer\<close>

definition calculateSummary :: "PaymentRow list \<Rightarrow> PaymentRow list option \<Rightarrow> ScenarioSummary" where
  "calculateSummary schedule baseSchedule =
     (let totalInterestPaid' = foldl (\<lambda>sum row. sum + interestPaid row) 0 schedule;
          totalPaid' = foldl (\<lambda>sum row. sum + totalPayment row) 0 schedule;
          monthsToPayoff' = length schedule
      in case baseSchedule of
           None \<Rightarrow>
             \<lparr> totalInterestPaid = totalInterestPaid', totalPaid = totalPaid',
               monthsToPayoff = monthsToPayoff', interestSaved = 0, monthsSaved = 0 \<rparr>
         | Some base \<Rightarrow>
             let baseInterest = foldl (\<lambda>sum row. sum + interestPaid row) 0 base
             in \<lparr> totalInterestPaid = totalInterestPaid', totalPaid = totalPaid',
                  monthsToPayoff = monthsToPayoff',
                  interestSaved = baseInterest - totalInterestPaid',
                  monthsSaved = int (length base) - int monthsToPayoff' \<rparr>)"

section \<open>Auxiliary notions used in the statements\<close>

text \<open>The extra principal requested for a period: the recurring extra plus the lump sum
  of that period, each 0 when absent.\<close>

definition requestedExtra :: "ScenarioOverride option \<Rightarrow> nat \<Rightarrow> real" where
  "requestedExtra overrides m =
     (case overrides of None \<Rightarrow> 0
      | Some ov \<Rightarrow> extraMonthlyPrincipal ov
          + (case lumpSumPayments ov m of None \<Rightarrow> 0 | Some v \<Rightarrow> v))"

text \<open>The balance before row \<open>i\<close> (0-based): the principal for the first row, the stored
  remaining balance of the previous row otherwise.\<close>

definition balanceBefore :: "real \<Rightarrow> PaymentRow list \<Rightarrow> nat \<Rightarrow> real" where
  "balanceBefore p schedule i = (if i = 0 then p else remainingBalance (schedule ! (i - 1)))"

text \<open>The principal applied in one period, and the row the period emits, as functions of
  the loop state. They are the \<open>let\<close> bindings of \<open>scheduleLoop\<close> read off as terms (lemma
  \<open>scheduleLoop_unfold\<close>).\<close>

definition stepPrincipal :: "ScenarioOverride option \<Rightarrow> real \<Rightarrow> real \<Rightarrow> nat \<Rightarrow> real \<Rightarrow> real" where
  "stepPrincipal overrides r bp m rb = min (bp - rb * r + requestedExtra overrides m) rb"

definition stepRow ::
  "MortgageInputs \<Rightarrow> ScenarioOverride option \<Rightarrow> real \<Rightarrow> real \<Rightarrow> nat \<Rightarrow> real \<Rightarrow> PaymentRow" where
  "stepRow inputs overrides r bp m rb =
     \<lparr> month = m, date = startDate inputs + int m - 1, basePayment = bp,
       extraPayment = stepPrincipal overrides r bp m rb - (bp - rb * r),
       totalPayment = bp + (stepPrincipal overrides r bp m rb - (bp - rb * r))
                        + extraMonthlyPayment inputs,
       principalPaid = stepPrincipal overrides r bp m rb,
       interestPaid = rb * r,
       remainingBalance = max 0 (rb - stepPrincipal overrides r bp m rb) \<rparr>"

text \<open>The running balance after \<open>i\<close> periods of a loop started in month \<open>m\<close> with
  balance \<open>rb\<close>, ignoring the stopping tests.\<close>

fun runBal :: "ScenarioOverride option \<Rightarrow> real \<Rightarrow> real \<Rightarrow> nat \<Rightarrow> real \<Rightarrow> nat \<Rightarrow> real" where
  "runBal overrides r bp m rb 0 = rb"
| "runBal overrides r bp m rb (Suc i) =
     runBal overrides r bp m rb i
       - stepPrincipal overrides r bp (m + i) (runBal overrides r bp m rb i)"

section \<open>The loop, one iteration at a time\<close>

lemma scheduleLoop_unfold:
  "scheduleLoop inputs overrides r bp m rb =
     (if m \<le> termMonths inputs \<and> rb > 0.01 then
        stepRow inputs overrides r bp m rb #
          (if rb - stepPrincipal overrides r bp m rb \<le> 0.01 then []
           else scheduleLoop inputs overrides r bp (m + 1) (rb - stepPrincipal overrides r bp m rb))
      else [])"
proof -
  have e: "(case overrides of None \<Rightarrow> 0 | Some ov \<Rightarrow> extraMonthlyPrincipal ov)
      + (case overrides of None \<Rightarrow> 0
         | Some ov \<Rightarrow> (case lumpSumPayments ov m of None \<Rightarrow> 0 | Some v \<Rightarrow> v))
      = requestedExtra overrides m"
    by (simp add: requestedExtra_def split: option.splits)
  show ?thesis
    by (subst scheduleLoop.simps) (simp only: Let_def e stepRow_def stepPrincipal_def)
qed

lemma generate_unfold:
  "generateAmortizationSchedule inputs overrides =
     scheduleLoop inputs overrides (annualRate inputs / 100 / 12)
       (calculateMonthlyPayment (principal inputs) (annualRate inputs) (termMonths inputs))
       1 (principal inputs)"
  by (simp add: generateAmortizationSchedule_def Let_def)

lemma scheduleLoop_Nil_iff:
  "scheduleLoop inputs overrides r bp m rb = [] \<longleftrightarrow> \<not> (m \<le> termMonths inputs \<and> rb > 0.01)"
  by (subst scheduleLoop_unfold) simp

lemma runBal_shift:
  "runBal overrides r bp m rb (Suc i) =
     runBal overrides r bp (Suc m) (rb - stepPrincipal overrides r bp m rb) i"
  by (induction i) simp_all

lemma stepPrincipal_le: "stepPrincipal overrides r bp m rb \<le> rb"
  by (simp add: stepPrincipal_def)

lemma runBal_nonneg: "0 \<le> rb \<Longrightarrow> 0 \<le> runBal overrides r bp m rb i"
  by (induction i) (simp_all add: stepPrincipal_le)

lemma scheduleLoop_length_le:
  "length (scheduleLoop inputs overrides r bp m rb) \<le> termMonths inputs + 1 - m"
proof (induction "termMonths inputs + 1 - m" arbitrary: m rb)
  case 0
  then show ?case by (subst scheduleLoop_unfold) simp
next
  case (Suc n)
  from Suc.hyps(2) have "n = termMonths inputs + 1 - (m + 1)" by simp
  from Suc.hyps(1)[OF this, of "rb - stepPrincipal overrides r bp m rb"] Suc.hyps(2) show ?case
    by (subst scheduleLoop_unfold) auto
qed

text \<open>Row \<open>i\<close> of the loop's output is the row emitted from the running balance, which
  was above the threshold, in a month within the term.\<close>

lemma scheduleLoop_nth:
  "i < length (scheduleLoop inputs overrides r bp m rb) \<Longrightarrow>
     scheduleLoop inputs overrides r bp m rb ! i
       = stepRow inputs overrides r bp (m + i) (runBal overrides r bp m rb i)
     \<and> m + i \<le> termMonths inputs \<and> runBal overrides r bp m rb i > 0.01"
proof (induction i arbitrary: m rb)
  case 0
  then show ?case
    by (subst (asm) scheduleLoop_unfold, subst scheduleLoop_unfold) (simp split: if_splits)
next
  case (Suc i)
  from Suc.prems have run: "m \<le> termMonths inputs \<and> rb > 0.01"
    by (subst (asm) scheduleLoop_unfold) (simp split: if_splits)
  let ?rb = "rb - stepPrincipal overrides r bp m rb"
  from Suc.prems run have cont: "\<not> ?rb \<le> 0.01"
    and len: "i < length (scheduleLoop inputs overrides r bp (m + 1) ?rb)"
    by (subst (asm) scheduleLoop_unfold, simp split: if_splits)+
  have eq: "scheduleLoop inputs overrides r bp m rb ! Suc i
      = scheduleLoop inputs overrides r bp (m + 1) ?rb ! i"
    using run cont by (subst scheduleLoop_unfold) simp
  from Suc.IH[OF len] show ?case
    unfolding eq runBal_shift by simp
qed

lemma scheduleLoop_continues:
  "Suc i < length (scheduleLoop inputs overrides r bp m rb) \<Longrightarrow>
     runBal overrides r bp m rb (Suc i) > 0.01"
  using scheduleLoop_nth[of "Suc i" inputs overrides r bp m rb] by blast

text \<open>A loop that ends with months of the term left has ended on the balance test.\<close>

lemma scheduleLoop_stops:
  "m + length (scheduleLoop inputs overrides r bp m rb) \<le> termMonths inputs \<Longrightarrow>
     runBal overrides r bp m rb (length (scheduleLoop inputs overrides r bp m rb)) \<le> 0.01"
proof (induction "termMonths inputs + 1 - m" arbitrary: m rb)
  case 0
  then show ?case by simp
next
  case (Suc n)
  let ?rb = "rb - stepPrincipal overrides r bp m rb"
  from Suc.hyps(2) have n: "n = termMonths inputs + 1 - (m + 1)" by simp
  have m: "m \<le> termMonths inputs" using Suc.prems by simp
  show ?case
  proof (cases "rb > 0.01")
    case False
    then show ?thesis by (subst scheduleLoop_unfold, subst scheduleLoop_unfold) simp
  next
    case True
    show ?thesis
    proof (cases "?rb \<le> 0.01")
      case True
      with \<open>rb > 0.01\<close> m
      have "scheduleLoop inputs overrides r bp m rb = [stepRow inputs overrides r bp m rb]"
        by (subst scheduleLoop_unfold) simp
      with True show ?thesis by simp
    next
      case False
      with \<open>rb > 0.01\<close> m have u: "scheduleLoop inputs overrides r bp m rb
          = stepRow inputs overrides r bp m rb # scheduleLoop inputs overrides r bp (m + 1) ?rb"
        by (subst scheduleLoop_unfold) simp
      with Suc.prems
      have "m + 1 + length (scheduleLoop inputs overrides r bp (m + 1) ?rb) \<le> termMonths inputs"
        by simp
      from Suc.hyps(1)[OF n this] show ?thesis
        unfolding u by (simp add: runBal_shift del: runBal.simps)
    qed
  qed
qed

lemma scheduleLoop_stored_balance:
  assumes "i < length (scheduleLoop inputs overrides r bp m rb)"
  shows "remainingBalance (scheduleLoop inputs overrides r bp m rb ! i)
           = runBal overrides r bp m rb (Suc i)"
proof -
  from scheduleLoop_nth[OF assms] have row: "scheduleLoop inputs overrides r bp m rb ! i
       = stepRow inputs overrides r bp (m + i) (runBal overrides r bp m rb i)"
    and pos: "runBal overrides r bp m rb i > 0.01" by simp_all
  have "stepPrincipal overrides r bp (m + i) (runBal overrides r bp m rb i)
          \<le> runBal overrides r bp m rb i" by (rule stepPrincipal_le)
  then show ?thesis unfolding row by (simp add: stepRow_def)
qed

lemma scheduleLoop_balanceBefore:
  assumes "i \<le> length (scheduleLoop inputs overrides r bp m rb)"
  shows "balanceBefore rb (scheduleLoop inputs overrides r bp m rb) i = runBal overrides r bp m rb i"
proof (cases i)
  case 0
  then show ?thesis by (simp add: balanceBefore_def)
next
  case (Suc j)
  with assms have "j < length (scheduleLoop inputs overrides r bp m rb)" by simp
  from scheduleLoop_stored_balance[OF this] Suc show ?thesis
    by (simp add: balanceBefore_def)
qed

lemma scheduleLoop_payoff:
  assumes "m \<le> termMonths inputs" "rb > 0.01" "rb \<le> bp - rb * r + requestedExtra overrides m"
  shows "scheduleLoop inputs overrides r bp m rb = [stepRow inputs overrides r bp m rb]"
    and "stepPrincipal overrides r bp m rb = rb"
proof -
  from assms(3) show p: "stepPrincipal overrides r bp m rb = rb"
    by (simp add: stepPrincipal_def)
  from assms(1,2) show "scheduleLoop inputs overrides r bp m rb = [stepRow inputs overrides r bp m rb]"
    by (subst scheduleLoop_unfold) (simp add: p)
qed

text \<open>The rows of a generated schedule, in terms of the stored balances.\<close>

lemma generate_row:
  assumes "i < length (generateAmortizationSchedule inputs overrides)"
  shows "generateAmortizationSchedule inputs overrides ! i
     = stepRow inputs overrides (annualRate inputs / 100 / 12)
        (calculateMonthlyPayment (principal inputs) (annualRate inputs) (termMonths inputs))
        (Suc i) (balanceBefore (principal inputs) (generateAmortizationSchedule inputs overrides) i)"
    and "balanceBefore (principal inputs) (generateAmortizationSchedule inputs overrides) i > 0.01"
    and "Suc i < length (generateAmortizationSchedule inputs overrides) \<Longrightarrow>
         balanceBefore (principal inputs) (generateAmortizationSchedule inputs overrides) (Suc i) > 0.01"
proof -
  let ?r = "annualRate inputs / 100 / 12"
  let ?bp = "calculateMonthlyPayment (principal inputs) (annualRate inputs) (termMonths inputs)"
  let ?s = "scheduleLoop inputs overrides ?r ?bp 1 (principal inputs)"
  from assms have i: "i < length ?s" by (simp add: generate_unfold)
  have bal: "balanceBefore (principal inputs) ?s i = runBal overrides ?r ?bp 1 (principal inputs) i"
    using i by (intro scheduleLoop_balanceBefore) simp
  from scheduleLoop_nth[OF i] show "generateAmortizationSchedule inputs overrides ! i
     = stepRow inputs overrides ?r ?bp
        (Suc i) (balanceBefore (principal inputs) (generateAmortizationSchedule inputs overrides) i)"
    and "balanceBefore (principal inputs) (generateAmortizationSchedule inputs overrides) i > 0.01"
    unfolding generate_unfold bal by simp_all
  assume "Suc i < length (generateAmortizationSchedule inputs overrides)"
  then have si: "Suc i < length ?s" by (simp add: generate_unfold)
  have "balanceBefore (principal inputs) ?s (Suc i)
          = runBal overrides ?r ?bp 1 (principal inputs) (Suc i)"
    using si by (intro scheduleLoop_balanceBefore) simp
  with scheduleLoop_continues[OF si]
  show "balanceBefore (principal inputs) (generateAmortizationSchedule inputs overrides) (Suc i) > 0.01"
    unfolding generate_unfold by simp
qed

lemma stepRow_fields:
  "month (stepRow inputs overrides r bp m rb) = m"
  "basePayment (stepRow inputs overrides r bp m rb) = bp"
  "interestPaid (stepRow inputs overrides r bp m rb) = rb * r"
  "principalPaid (stepRow inputs overrides r bp m rb) = min (bp - rb * r + requestedExtra overrides m) rb"
  "extraPayment (stepRow inputs overrides r bp m rb)
     = min (bp - rb * r + requestedExtra overrides m) rb - (bp - rb * r)"
  "totalPayment (stepRow inputs overrides r bp m rb)
     = bp + (min (bp - rb * r + requestedExtra overrides m) rb - (bp - rb * r))
         + extraMonthlyPayment inputs"
  "remainingBalance (stepRow inputs overrides r bp m rb)
     = max 0 (rb - min (bp - rb * r + requestedExtra overrides m) rb)"
  by (simp_all add: stepRow_def stepPrincipal_def)

section \<open>Facts about the payment\<close>

lemma payment_zero_rate: "calculateMonthlyPayment P 0 N = P / real N"
  by (simp add: calculateMonthlyPayment_def)

lemma payment_pos_rate:
  "R \<noteq> 0 \<Longrightarrow> calculateMonthlyPayment P R N =
     P * ((R / 100 / 12) * (1 + R / 100 / 12) ^ N / ((1 + R / 100 / 12) ^ N - 1))"
  by (simp add: calculateMonthlyPayment_def Let_def)

lemma growth_gt_one:
  fixes r :: real
  assumes "0 < r" "1 \<le> N"
  shows "1 < (1 + r) ^ N"
  using assms by (simp add: one_less_power)

lemma annuity_core:
  fixes r P :: real
  assumes "0 < r" "1 \<le> N"
  shows "P * (1 + r) ^ N = P * (r * (1 + r) ^ N / ((1 + r) ^ N - 1)) * (\<Sum>j<N. (1 + r) ^ j)"
proof -
  define x where "x = (1 + r) ^ N"
  from growth_gt_one[OF assms] have x: "0 < x - 1" by (simp add: x_def)
  from assms(1) have "1 + r \<noteq> 1" by simp
  from geometric_sum[OF this, of N] have "(\<Sum>j<N. (1 + r) ^ j) = (x - 1) / r"
    by (simp add: x_def)
  moreover have "P * x = P * (r * x / (x - 1)) * ((x - 1) / r)"
    using x assms(1) by (simp add: field_simps)
  ultimately show ?thesis by (simp add: x_def)
qed

text \<open>The payment is the one whose \<open>N\<close> instalments, compounded to the end of the term, are
  worth the compounded principal.\<close>

lemma payment_annuity:
  assumes "0 \<le> R" "1 \<le> N"
  shows "P * (1 + R / 100 / 12) ^ N
           = calculateMonthlyPayment P R N * (\<Sum>j<N. (1 + R / 100 / 12) ^ j)"
proof (cases "R = 0")
  case True
  with assms show ?thesis by (simp add: payment_zero_rate)
next
  case False
  with assms have r: "0 < R / 100 / 12" by simp
  show ?thesis
    unfolding payment_pos_rate[OF False] by (rule annuity_core[OF r assms(2)])
qed

lemma payment_pos:
  assumes "0 < P" "0 \<le> R" "1 \<le> N"
  shows "0 < calculateMonthlyPayment P R N"
proof (cases "R = 0")
  case True
  with assms show ?thesis by (simp add: payment_zero_rate)
next
  case False
  let ?r = "R / 100 / 12"
  from False assms have r: "0 < ?r" by simp
  from growth_gt_one[OF r assms(3)] have d: "0 < (1 + ?r) ^ N - 1" by simp
  from r have "0 < (1 + ?r) ^ N" by simp
  with r d assms(1) show ?thesis
    by (simp add: payment_pos_rate[OF False])
qed

lemma foldl_add_sum_list: "foldl (\<lambda>sum row. sum + f row) (a::real) xs = a + sum_list (map f xs)"
  by (induction xs arbitrary: a) simp_all

section \<open>Row invariants\<close>

text \<open>
  Claim C1. In every schedule produced by \<open>generateAmortizationSchedule\<close>, every row has
  principalPaid + interestPaid equal to basePayment + extraPayment, its remainingBalance is
  the balance before the row (the principal for the first row, the previous row's
  remainingBalance otherwise) minus its principalPaid, and its remainingBalance is not
  negative. In exact arithmetic the two equations hold without any tolerance.
\<close>

theorem schedule_row_invariant:
  "let s = generateAmortizationSchedule inputs overrides in
     \<forall>i < length s.
       principalPaid (s ! i) + interestPaid (s ! i) = basePayment (s ! i) + extraPayment (s ! i)
     \<and> remainingBalance (s ! i) = balanceBefore (principal inputs) s i - principalPaid (s ! i)
     \<and> 0 \<le> remainingBalance (s ! i)"
proof -
  let ?s = "generateAmortizationSchedule inputs overrides"
  have "principalPaid (?s ! i) + interestPaid (?s ! i) = basePayment (?s ! i) + extraPayment (?s ! i)
     \<and> remainingBalance (?s ! i) = balanceBefore (principal inputs) ?s i - principalPaid (?s ! i)
     \<and> 0 \<le> remainingBalance (?s ! i)" if i: "i < length ?s" for i
  proof -
    define row where "row = ?s ! i"
    define b where "b = balanceBefore (principal inputs) ?s i"
    from generate_row(1)[OF i] have row: "row = stepRow inputs overrides (annualRate inputs / 100 / 12)
        (calculateMonthlyPayment (principal inputs) (annualRate inputs) (termMonths inputs)) (Suc i) b"
      by (simp add: row_def b_def)
    have "principalPaid row + interestPaid row = basePayment row + extraPayment row"
      and "remainingBalance row = b - principalPaid row"
      and "0 \<le> remainingBalance row"
      unfolding row by (simp_all add: stepRow_fields)
    then show ?thesis by (simp add: row_def b_def)
  qed
  then show ?thesis unfolding Let_def by blast
qed

theorem schedule_row_invariant_witness:
  "let s = generateAmortizationSchedule
             \<lparr> principal = 100, annualRate = 0, termMonths = 2, startDate = 0,
               extraMonthlyPayment = 0 \<rparr> None in
     length s = 2
   \<and> principalPaid (s ! 1) + interestPaid (s ! 1) = basePayment (s ! 1) + extraPayment (s ! 1)
   \<and> remainingBalance (s ! 1) = balanceBefore 100 s 1 - principalPaid (s ! 1)
   \<and> 0 \<le> remainingBalance (s ! 1)"
proof -
  let ?I = "\<lparr> principal = 100, annualRate = 0, termMonths = 2, startDate = 0,
              extraMonthlyPayment = 0 \<rparr>"
  have len: "length (generateAmortizationSchedule ?I None) = 2"
    by (simp add: generate_unfold scheduleLoop_unfold stepPrincipal_def requestedExtra_def
        payment_zero_rate)
  from len have "1 < length (generateAmortizationSchedule ?I None)" by simp
  from schedule_row_invariant[of ?I None, unfolded Let_def, rule_format, OF this] len
  show ?thesis by (simp add: Let_def)
qed

section \<open>The payment formula\<close>

text \<open>
  Claim C2. For principal P, annual rate percentage R and term N \<ge> 1,
  \<open>calculateMonthlyPayment\<close> returns P / N when the monthly rate r = R/100/12 is zero, and
  P * [r (1 + r)^N] / [(1 + r)^N - 1] otherwise.
\<close>

theorem calculateMonthlyPayment_formula:
  assumes "1 \<le> N"
  shows "calculateMonthlyPayment P R N =
     (if R / 100 / 12 = 0 then P / real N
      else P * ((R / 100 / 12) * (1 + R / 100 / 12) ^ N) / ((1 + R / 100 / 12) ^ N - 1))"
  by (simp add: calculateMonthlyPayment_def Let_def)

theorem calculateMonthlyPayment_formula_witness:
  "(1::nat) \<le> 2 \<and> calculateMonthlyPayment 1200 0 2 = 600
   \<and> calculateMonthlyPayment 1200 12 2 = 40804 / 67"
proof -
  have N: "(1::nat) \<le> 2" by simp
  from calculateMonthlyPayment_formula[OF N, of 1200 0]
    calculateMonthlyPayment_formula[OF N, of 1200 12]
  show ?thesis by (simp add: power2_eq_square)
qed


section \<open>The summary\<close>

text \<open>
  Claim C6. \<open>calculateSummary\<close> returns totalInterestPaid equal to the sum of interestPaid
  over the rows, totalPaid equal to the sum of totalPayment over the rows, and
  monthsToPayoff equal to the row count. With a baseline schedule, interestSaved is the
  baseline's interest sum minus totalInterestPaid and monthsSaved is the baseline's row
  count minus monthsToPayoff; without one both are 0.
\<close>

theorem calculateSummary_totals:
  "totalInterestPaid (calculateSummary s b) = sum_list (map interestPaid s)
   \<and> totalPaid (calculateSummary s b) = sum_list (map totalPayment s)
   \<and> monthsToPayoff (calculateSummary s b) = length s
   \<and> interestSaved (calculateSummary s (Some base))
       = sum_list (map interestPaid base) - totalInterestPaid (calculateSummary s (Some base))
   \<and> monthsSaved (calculateSummary s (Some base))
       = int (length base) - int (monthsToPayoff (calculateSummary s (Some base)))
   \<and> interestSaved (calculateSummary s None) = 0
   \<and> monthsSaved (calculateSummary s None) = 0"
  by (cases b) (simp_all add: calculateSummary_def Let_def foldl_add_sum_list)

section \<open>The clamp\<close>

text \<open>Two small schedules, evaluated: a loan of 100 at rate 0 over 2 months with a recurring
  extra of 10 and a lump sum of 1000 in month 2, and the loan of the specification's
  scenarios with a lump sum of 400000 in month 1.\<close>

lemma example_override_schedule:
  "generateAmortizationSchedule
     \<lparr> principal = 100, annualRate = 0, termMonths = 2, startDate = 0, extraMonthlyPayment = 0 \<rparr>
     (Some \<lparr> extraMonthlyPrincipal = 10, lumpSumPayments = [2 \<mapsto> 1000] \<rparr>)
   = [\<lparr> month = 1, date = 0, basePayment = 50, extraPayment = 10, totalPayment = 60,
        principalPaid = 60, interestPaid = 0, remainingBalance = 40 \<rparr>,
      \<lparr> month = 2, date = 1, basePayment = 50, extraPayment = - 10, totalPayment = 40,
        principalPaid = 40, interestPaid = 0, remainingBalance = 0 \<rparr>]"
  by (simp add: generate_unfold scheduleLoop_unfold stepRow_def stepPrincipal_def requestedExtra_def
      payment_zero_rate)

lemma lump_sum_payoff:
  fixes d :: int and x :: real
  defines "I \<equiv> \<lparr> principal = 300000, annualRate = 6.5, termMonths = 360, startDate = d,
                  extraMonthlyPayment = x \<rparr>"
  defines "ov \<equiv> Some \<lparr> extraMonthlyPrincipal = 0, lumpSumPayments = [1 \<mapsto> 400000] \<rparr>"
  shows "length (generateAmortizationSchedule I ov) = 1
     \<and> remainingBalance (generateAmortizationSchedule I ov ! 0) = 0
     \<and> extraPayment (generateAmortizationSchedule I ov ! 0)
         = 300000 - (basePayment (generateAmortizationSchedule I ov ! 0)
                      - interestPaid (generateAmortizationSchedule I ov ! 0))
     \<and> extraPayment (generateAmortizationSchedule I ov ! 0) \<noteq> 400000"
proof -
  define bp where "bp = calculateMonthlyPayment 300000 6.5 360"
  define r :: real where "r = 6.5 / 100 / 12"
  have bp: "0 < bp" unfolding bp_def by (rule payment_pos) simp_all
  have req: "requestedExtra ov 1 = 400000" by (simp add: requestedExtra_def ov_def)
  have "(300000::real) \<le> bp - 300000 * r + requestedExtra ov 1"
    using bp unfolding req by (simp add: r_def)
  from scheduleLoop_payoff[of 1 I 300000 bp r ov, OF _ _ this]
  have s: "scheduleLoop I ov r bp 1 300000 = [stepRow I ov r bp 1 300000]"
    and p: "stepPrincipal ov r bp 1 300000 = 300000"
    by (simp_all add: I_def)
  have g: "generateAmortizationSchedule I ov = [stepRow I ov r bp 1 300000]"
    unfolding generate_unfold s[symmetric] by (simp add: I_def bp_def r_def)
  from p have p': "stepPrincipal ov r bp (Suc 0) 300000 = 300000" by simp
  have "300000 - (bp - 300000 * r) \<noteq> 400000" using bp by (simp add: r_def)
  then show ?thesis unfolding g by (simp add: stepRow_def p')
qed

text \<open>
  Claim C3. In every period the principal applied is the minimum of basePayment - interest +
  requested extra and the balance before the payment, and the stored extraPayment is the
  applied principal minus the unclamped base principal portion basePayment - interest.
  For the loan of 300000 at 6.5% over 360 months with a lump sum of 400000 in month 1, the
  schedule has one row, its remainingBalance is 0 and its extraPayment is the balance
  before the payment (300000) minus the base principal portion, not 400000.
\<close>

theorem payment_clamp:
  "(let s = generateAmortizationSchedule inputs overrides in
     \<forall>i < length s.
       month (s ! i) = Suc i
     \<and> basePayment (s ! i)
         = calculateMonthlyPayment (principal inputs) (annualRate inputs) (termMonths inputs)
     \<and> interestPaid (s ! i) = balanceBefore (principal inputs) s i * (annualRate inputs / 100 / 12)
     \<and> principalPaid (s ! i) =
         min (basePayment (s ! i) - interestPaid (s ! i) + requestedExtra overrides (month (s ! i)))
             (balanceBefore (principal inputs) s i)
     \<and> extraPayment (s ! i) = principalPaid (s ! i) - (basePayment (s ! i) - interestPaid (s ! i)))
   \<and> (let s = generateAmortizationSchedule
                \<lparr> principal = 300000, annualRate = 6.5, termMonths = 360, startDate = d,
                  extraMonthlyPayment = x \<rparr>
                (Some \<lparr> extraMonthlyPrincipal = 0, lumpSumPayments = [1 \<mapsto> 400000] \<rparr>) in
       length s = 1
     \<and> remainingBalance (s ! 0) = 0
     \<and> extraPayment (s ! 0) = 300000 - (basePayment (s ! 0) - interestPaid (s ! 0))
     \<and> extraPayment (s ! 0) \<noteq> 400000)"
proof -
  let ?s = "generateAmortizationSchedule inputs overrides"
  have "month (?s ! i) = Suc i
     \<and> basePayment (?s ! i)
         = calculateMonthlyPayment (principal inputs) (annualRate inputs) (termMonths inputs)
     \<and> interestPaid (?s ! i) = balanceBefore (principal inputs) ?s i * (annualRate inputs / 100 / 12)
     \<and> principalPaid (?s ! i) =
         min (basePayment (?s ! i) - interestPaid (?s ! i) + requestedExtra overrides (month (?s ! i)))
             (balanceBefore (principal inputs) ?s i)
     \<and> extraPayment (?s ! i) = principalPaid (?s ! i) - (basePayment (?s ! i) - interestPaid (?s ! i))"
    if i: "i < length ?s" for i
  proof -
    define row where "row = ?s ! i"
    define b where "b = balanceBefore (principal inputs) ?s i"
    from generate_row(1)[OF i] have row: "row = stepRow inputs overrides (annualRate inputs / 100 / 12)
        (calculateMonthlyPayment (principal inputs) (annualRate inputs) (termMonths inputs)) (Suc i) b"
      by (simp add: row_def b_def)
    have "month row = Suc i
      \<and> basePayment row
          = calculateMonthlyPayment (principal inputs) (annualRate inputs) (termMonths inputs)
      \<and> interestPaid row = b * (annualRate inputs / 100 / 12)
      \<and> principalPaid row = min (basePayment row - interestPaid row + requestedExtra overrides (month row)) b
      \<and> extraPayment row = principalPaid row - (basePayment row - interestPaid row)"
      unfolding row by (simp add: stepRow_fields)
    then show ?thesis by (simp add: row_def b_def)
  qed
  with lump_sum_payoff[of d x] show ?thesis unfolding Let_def by blast
qed

theorem payment_clamp_witness:
  "let ov = Some \<lparr> extraMonthlyPrincipal = 10, lumpSumPayments = [2 \<mapsto> 1000] \<rparr>;
       s = generateAmortizationSchedule
             \<lparr> principal = 100, annualRate = 0, termMonths = 2, startDate = 0,
               extraMonthlyPayment = 0 \<rparr> ov in
     length s = 2
   \<and> principalPaid (s ! 1)
       = min (basePayment (s ! 1) - interestPaid (s ! 1) + requestedExtra ov (month (s ! 1)))
             (balanceBefore 100 s 1)
   \<and> extraPayment (s ! 1) = principalPaid (s ! 1) - (basePayment (s ! 1) - interestPaid (s ! 1))"
proof -
  let ?I = "\<lparr> principal = 100, annualRate = 0, termMonths = 2, startDate = 0,
              extraMonthlyPayment = 0 \<rparr>"
  let ?ov = "Some \<lparr> extraMonthlyPrincipal = 10, lumpSumPayments = [2 \<mapsto> 1000] \<rparr>"
  have len: "length (generateAmortizationSchedule ?I ?ov) = 2"
    by (simp add: example_override_schedule)
  then have "1 < length (generateAmortizationSchedule ?I ?ov)" by simp
  from payment_clamp[of ?I ?ov 0 0, unfolded Let_def, THEN conjunct1, rule_format, OF this] len
  show ?thesis by (simp add: Let_def)
qed

section \<open>Length of the schedule\<close>

text \<open>
  Claim C7, amended. \<open>generateAmortizationSchedule\<close> is a total function: the loop's measure
  termMonths + 1 - month decreases. The schedule has at most termMonths rows. It has fewer
  than termMonths rows exactly when a balance at or below the threshold 0.01 is reached
  before termMonths periods have elapsed (the principal itself, or the stored balance after
  some period k < termMonths). It is non-empty exactly when termMonths \<ge> 1 and the
  principal exceeds 0.01; a positive principal of at most 0.01 gives the empty schedule.
\<close>

theorem schedule_length_and_early_stop:
  "let s = generateAmortizationSchedule inputs overrides in
     length s \<le> termMonths inputs
   \<and> (length s < termMonths inputs \<longleftrightarrow>
        (\<exists>k < termMonths inputs. k \<le> length s \<and> balanceBefore (principal inputs) s k \<le> 0.01))
   \<and> (s \<noteq> [] \<longleftrightarrow> 1 \<le> termMonths inputs \<and> principal inputs > 0.01)"
proof -
  let ?r = "annualRate inputs / 100 / 12"
  let ?bp = "calculateMonthlyPayment (principal inputs) (annualRate inputs) (termMonths inputs)"
  let ?s = "scheduleLoop inputs overrides ?r ?bp 1 (principal inputs)"
  have a: "length ?s \<le> termMonths inputs"
    using scheduleLoop_length_le[of inputs overrides ?r ?bp 1 "principal inputs"] by simp
  have b1: "\<exists>k < termMonths inputs. k \<le> length ?s \<and> balanceBefore (principal inputs) ?s k \<le> 0.01"
    if "length ?s < termMonths inputs"
  proof -
    from that have "1 + length ?s \<le> termMonths inputs" by simp
    from scheduleLoop_stops[OF this]
    have "balanceBefore (principal inputs) ?s (length ?s) \<le> 0.01"
      by (simp add: scheduleLoop_balanceBefore)
    with that show ?thesis by blast
  qed
  have b2: "length ?s < termMonths inputs"
    if "\<exists>k < termMonths inputs. k \<le> length ?s \<and> balanceBefore (principal inputs) ?s k \<le> 0.01"
  proof -
    from that obtain k where k: "k < termMonths inputs" "k \<le> length ?s"
      "balanceBefore (principal inputs) ?s k \<le> 0.01" by blast
    have "\<not> k < length ?s"
    proof
      assume "k < length ?s"
      from scheduleLoop_nth[OF this] k(3) scheduleLoop_balanceBefore[OF k(2)]
      show False by simp
    qed
    with k show ?thesis by simp
  qed
  have c: "?s \<noteq> [] \<longleftrightarrow> 1 \<le> termMonths inputs \<and> principal inputs > 0.01"
    by (simp add: scheduleLoop_Nil_iff)
  from a b1 b2 c show ?thesis unfolding Let_def generate_unfold by blast
qed

theorem schedule_length_and_early_stop_witness:
  "let s = generateAmortizationSchedule
             \<lparr> principal = 100, annualRate = 0, termMonths = 3, startDate = 0,
               extraMonthlyPayment = 0 \<rparr>
             (Some \<lparr> extraMonthlyPrincipal = 0, lumpSumPayments = [1 \<mapsto> 1000] \<rparr>) in
     length s = 1
   \<and> (\<exists>k < 3. k \<le> length s \<and> balanceBefore 100 s k \<le> 0.01)
   \<and> s \<noteq> []"
proof -
  let ?I = "\<lparr> principal = 100, annualRate = 0, termMonths = 3, startDate = 0,
              extraMonthlyPayment = 0 \<rparr>"
  let ?ov = "Some \<lparr> extraMonthlyPrincipal = 0, lumpSumPayments = [1 \<mapsto> 1000] \<rparr>"
  have len: "length (generateAmortizationSchedule ?I ?ov) = 1"
    by (simp add: generate_unfold scheduleLoop_unfold stepPrincipal_def requestedExtra_def
        payment_zero_rate)
  from schedule_length_and_early_stop[of ?I ?ov] len show ?thesis
    by (simp add: Let_def)
qed

text \<open>The claim as written also promises a non-empty schedule for every positive principal.
  Half a cent over 360 months at 6.5% is a positive principal with an empty schedule: the
  loop guard \<open>remainingBalance > 0.01\<close> fails before the first period.\<close>

theorem tiny_principal_empty_schedule:
  "(0::real) < 0.005 \<and> (1::nat) \<le> 360
   \<and> generateAmortizationSchedule
       \<lparr> principal = 0.005, annualRate = 6.5, termMonths = 360, startDate = 0,
         extraMonthlyPayment = 0 \<rparr> None = []"
  by (simp add: generate_unfold scheduleLoop_Nil_iff)

section \<open>The payment of the example loan\<close>

lemma mul_bounds:
  fixes a b :: real
  assumes "l1 \<le> a \<and> a \<le> u1" "l2 \<le> b \<and> b \<le> u2" "0 \<le> l1" "0 \<le> l2"
    and "l \<le> l1 * l2" "u1 * u2 \<le> u"
  shows "l \<le> a * b \<and> a * b \<le> u"
proof -
  from assms have "l1 * l2 \<le> a * b" by (intro mult_mono) simp_all
  moreover from assms have "a * b \<le> u1 * u2" by (intro mult_mono) simp_all
  ultimately show ?thesis using assms(5,6) by simp
qed

text \<open>Interval bounds for the growth factor \<open>(1 + 6.5/1200) ^ 360\<close>, by repeated squaring
  with nine decimals.\<close>

lemma growth_factor_bounds:
  "6.991796442 \<le> (2413 / 2400 :: real) ^ 360 \<and> (2413 / 2400 :: real) ^ 360 \<le> 6.991798961"
proof -
  define q :: real where "q = 2413 / 2400"
  have b1: "2413 / 2400 \<le> q \<and> q \<le> 2413 / 2400" by (simp add: q_def)
  have b2: "1.010862673 \<le> q ^ 2 \<and> q ^ 2 \<le> 1.010862674"
    using mul_bounds[OF b1 b1, where l="1.010862673" and u="1.010862674"] by (simp add: power2_eq_square)
  have b4: "1.021843343 \<le> q ^ 4 \<and> q ^ 4 \<le> 1.021843346"
    using mul_bounds[OF b2 b2, where l="1.021843343" and u="1.021843346"] by simp
  have b5: "1.027378327 \<le> q ^ 5 \<and> q ^ 5 \<le> 1.027378331"
    using mul_bounds[OF b4 b1, where l="1.027378327" and u="1.027378331"] power_add[of q 4 1]
    by simp
  have b10: "1.055506226 \<le> q ^ 10 \<and> q ^ 10 \<le> 1.055506236"
    using mul_bounds[OF b5 b5, where l="1.055506226" and u="1.055506236"] by simp
  have b20: "1.114093393 \<le> q ^ 20 \<and> q ^ 20 \<le> 1.114093415"
    using mul_bounds[OF b10 b10, where l="1.114093393" and u="1.114093415"] by simp
  have b40: "1.241204088 \<le> q ^ 40 \<and> q ^ 40 \<le> 1.241204138"
    using mul_bounds[OF b20 b20, where l="1.241204088" and u="1.241204138"] by simp
  have b45: "1.275186179 \<le> q ^ 45 \<and> q ^ 45 \<le> 1.275186236"
    using mul_bounds[OF b40 b5, where l="1.275186179" and u="1.275186236"] by simp
  have b90: "1.626099791 \<le> q ^ 90 \<and> q ^ 90 \<le> 1.626099937"
    using mul_bounds[OF b45 b45, where l="1.626099791" and u="1.626099937"] by simp
  have b180: "2.64420053 \<le> q ^ 180 \<and> q ^ 180 \<le> 2.644201006"
    using mul_bounds[OF b90 b90, where l="2.64420053" and u="2.644201006"] by simp
  have b360: "6.991796442 \<le> q ^ 360 \<and> q ^ 360 \<le> 6.991798961"
    using mul_bounds[OF b180 b180, where l="6.991796442" and u="6.991798961"] by simp
  then show ?thesis by (simp add: q_def)
qed

lemma example_payment_bounds:
  "1896.19 \<le> calculateMonthlyPayment 300000 6.5 360 \<and> calculateMonthlyPayment 300000 6.5 360 \<le> 1896.21"
proof -
  define x :: real where "x = (2413 / 2400) ^ 360"
  from growth_factor_bounds have x: "6.991796442 \<le> x" "x \<le> 6.991798961" by (simp_all add: x_def)
  from x have d: "0 < x - 1" by simp
  have "calculateMonthlyPayment 300000 6.5 360 = 300000 * (13 / 2400 * x / (x - 1))"
    by (simp add: payment_pos_rate x_def)
  also have "\<dots> = 1625 * x / (x - 1)" using d by (simp add: field_simps)
  finally have p: "calculateMonthlyPayment 300000 6.5 360 = 1625 * x / (x - 1)" .
  from x have "1896.19 * (x - 1) \<le> 1625 * x" "1625 * x \<le> 1896.21 * (x - 1)" by simp_all
  with d have "1896.19 \<le> 1625 * x / (x - 1)" "1625 * x / (x - 1) \<le> 1896.21"
    by (simp_all add: pos_le_divide_eq pos_divide_le_eq)
  then show ?thesis unfolding p by simp
qed

section \<open>The base schedule\<close>

lemma requestedExtra_None: "requestedExtra None m = 0"
  by (simp add: requestedExtra_def)

text \<open>Without overrides the running balance after \<open>i\<close> periods, compounded to the end of
  the term, is worth the remaining \<open>N - i\<close> payments; in particular the clamp never binds
  before the end of the term.\<close>

lemma base_runBal_invariant:
  fixes r bp P :: real
  assumes r: "0 \<le> r" and bp: "0 \<le> bp"
    and start: "P * (1 + r) ^ N = bp * (\<Sum>j<N. (1 + r) ^ j)"
  shows "i \<le> N \<Longrightarrow>
    runBal None r bp m P i * (1 + r) ^ (N - i) = bp * (\<Sum>j<N - i. (1 + r) ^ j)"
proof (induction i)
  case 0
  with start show ?case by simp
next
  case (Suc i)
  define b where "b = runBal None r bp m P i"
  define n where "n = N - Suc i"
  define S where "S = (\<Sum>j<n. (1 + r) ^ j)"
  from Suc.prems have n: "N - i = Suc n" by (simp add: n_def)
  from r have qn: "0 < (1 + r) ^ n" by simp
  from r have S: "0 \<le> S" unfolding S_def by (intro sum_nonneg) simp
  from Suc.IH Suc.prems have "b * (1 + r) ^ Suc n = bp * (S + (1 + r) ^ n)"
    by (simp add: b_def n S_def)
  then have eq: "(b * (1 + r) - bp) * (1 + r) ^ n = bp * S"
    by (simp add: algebra_simps)
  from bp S have "0 \<le> bp * S" by simp
  with eq have "0 \<le> (b * (1 + r) - bp) * (1 + r) ^ n" by simp
  with qn have "0 \<le> b * (1 + r) - bp" by (simp add: zero_le_mult_iff)
  then have "bp - b * r \<le> b" by (simp add: algebra_simps)
  then have "stepPrincipal None r bp (m + i) b = bp - b * r"
    by (simp add: stepPrincipal_def requestedExtra_None)
  then have "runBal None r bp m P (Suc i) = b * (1 + r) - bp"
    by (simp add: b_def algebra_simps)
  with eq show ?case by (simp add: n_def S_def)
qed

lemma base_runBal_end:
  fixes r bp P :: real
  assumes "0 \<le> r" "0 \<le> bp" "P * (1 + r) ^ N = bp * (\<Sum>j<N. (1 + r) ^ j)"
  shows "runBal None r bp m P N = 0"
  using base_runBal_invariant[OF assms, of N m] by simp

lemma base_runBal_lower:
  fixes r bp P :: real
  assumes r: "0 \<le> r" and bp: "0 \<le> bp"
    and start: "P * (1 + r) ^ N = bp * (\<Sum>j<N. (1 + r) ^ j)"
    and i: "i < N"
  shows "bp \<le> runBal None r bp m P i * (1 + r)"
proof -
  define b where "b = runBal None r bp m P i"
  define n where "n = N - Suc i"
  define S where "S = (\<Sum>j<n. (1 + r) ^ j)"
  from i have n: "N - i = Suc n" by (simp add: n_def)
  from r have qn: "0 < (1 + r) ^ n" by simp
  from r have S: "0 \<le> S" unfolding S_def by (intro sum_nonneg) simp
  from base_runBal_invariant[OF r bp start, of i m] i
  have "b * (1 + r) ^ Suc n = bp * (S + (1 + r) ^ n)"
    by (simp add: b_def n S_def)
  then have eq: "(b * (1 + r) - bp) * (1 + r) ^ n = bp * S"
    by (simp add: algebra_simps)
  from bp S have "0 \<le> bp * S" by simp
  with eq have "0 \<le> (b * (1 + r) - bp) * (1 + r) ^ n" by simp
  with qn have "0 \<le> b * (1 + r) - bp" by (simp add: zero_le_mult_iff)
  then show ?thesis by (simp add: b_def)
qed

text \<open>The principal portions of a schedule add up to the balance paid off.\<close>

lemma scheduleLoop_principal_sum:
  "sum_list (map principalPaid (scheduleLoop inputs overrides r bp m rb))
     = rb - runBal overrides r bp m rb (length (scheduleLoop inputs overrides r bp m rb))"
proof (induction "termMonths inputs + 1 - m" arbitrary: m rb)
  case 0
  then have "scheduleLoop inputs overrides r bp m rb = []" by (simp add: scheduleLoop_Nil_iff)
  then show ?case by simp
next
  case (Suc n)
  let ?rb = "rb - stepPrincipal overrides r bp m rb"
  from Suc.hyps(2) have n: "n = termMonths inputs + 1 - (m + 1)" by simp
  show ?case
  proof (cases "m \<le> termMonths inputs \<and> rb > 0.01")
    case False
    then have "scheduleLoop inputs overrides r bp m rb = []" by (simp add: scheduleLoop_Nil_iff)
    then show ?thesis by simp
  next
    case True
    show ?thesis
    proof (cases "?rb \<le> 0.01")
      case True
      with \<open>m \<le> termMonths inputs \<and> rb > 0.01\<close>
      have "scheduleLoop inputs overrides r bp m rb = [stepRow inputs overrides r bp m rb]"
        by (subst scheduleLoop_unfold) simp
      then show ?thesis by (simp add: stepRow_def)
    next
      case False
      with True have u: "scheduleLoop inputs overrides r bp m rb
          = stepRow inputs overrides r bp m rb # scheduleLoop inputs overrides r bp (m + 1) ?rb"
        by (subst scheduleLoop_unfold) simp
      from Suc.hyps(1)[OF n, of ?rb] show ?thesis
        unfolding u by (simp add: runBal_shift stepRow_def del: runBal.simps)
    qed
  qed
qed

lemma scheduleLoop_last_balance:
  assumes "scheduleLoop inputs overrides r bp m rb \<noteq> []"
  shows "remainingBalance (last (scheduleLoop inputs overrides r bp m rb))
     = runBal overrides r bp m rb (length (scheduleLoop inputs overrides r bp m rb))"
proof -
  let ?s = "scheduleLoop inputs overrides r bp m rb"
  from assms have i: "length ?s - 1 < length ?s" by simp
  from assms have "last ?s = ?s ! (length ?s - 1)" by (rule last_conv_nth)
  with scheduleLoop_stored_balance[OF i] assms show ?thesis by simp
qed

text \<open>What the base schedule of a loan with non-negative rate looks like.\<close>

lemma base_schedule_shape:
  assumes P: "0.01 < principal inputs" and R: "0 \<le> annualRate inputs" and N: "1 \<le> termMonths inputs"
  defines "s \<equiv> generateAmortizationSchedule inputs None"
  defines "bp \<equiv> calculateMonthlyPayment (principal inputs) (annualRate inputs) (termMonths inputs)"
  shows "s \<noteq> []"
    and "sum_list (map principalPaid s) = principal inputs - remainingBalance (last s)"
    and "0 \<le> remainingBalance (last s)" and "remainingBalance (last s) \<le> 0.01"
    and "remainingBalance (last s) = 0 \<longleftrightarrow> length s = termMonths inputs"
    and "0.01 * (1 + annualRate inputs / 100 / 12) < bp \<Longrightarrow> length s = termMonths inputs"
proof -
  define r where "r = annualRate inputs / 100 / 12"
  define L where "L = length s"
  have s: "s = scheduleLoop inputs None r bp 1 (principal inputs)"
    by (simp add: s_def generate_unfold r_def bp_def)
  from R have r: "0 \<le> r" by (simp add: r_def)
  from P have P0: "0 < principal inputs" by simp
  from payment_pos[OF P0 R N] have bp: "0 < bp" by (simp add: bp_def)
  then have bp0: "0 \<le> bp" by simp
  have start: "principal inputs * (1 + r) ^ termMonths inputs
                 = bp * (\<Sum>j<termMonths inputs. (1 + r) ^ j)"
    unfolding r_def bp_def by (rule payment_annuity[OF R N])
  from P N show ne: "s \<noteq> []" by (simp add: s scheduleLoop_Nil_iff)
  have last: "remainingBalance (last s) = runBal None r bp 1 (principal inputs) L"
    using ne unfolding s L_def by (rule scheduleLoop_last_balance)
  show "sum_list (map principalPaid s) = principal inputs - remainingBalance (last s)"
    unfolding last unfolding s L_def by (rule scheduleLoop_principal_sum)
  from P show nonneg: "0 \<le> remainingBalance (last s)"
    unfolding last by (intro runBal_nonneg) simp
  have len: "L \<le> termMonths inputs"
    using scheduleLoop_length_le[of inputs None r bp 1 "principal inputs"] by (simp add: s L_def)
  have early: "runBal None r bp 1 (principal inputs) L \<le> 0.01
               \<and> bp \<le> runBal None r bp 1 (principal inputs) L * (1 + r)"
    if "L < termMonths inputs"
  proof -
    from that have "1 + length (scheduleLoop inputs None r bp 1 (principal inputs))
        \<le> termMonths inputs" by (simp add: s L_def)
    from scheduleLoop_stops[OF this] base_runBal_lower[OF r bp0 start that]
    show ?thesis by (simp add: s L_def)
  qed
  have full: "runBal None r bp 1 (principal inputs) L = 0" if "L = termMonths inputs"
    unfolding that by (rule base_runBal_end[OF r bp0 start])
  from len early full show "remainingBalance (last s) \<le> 0.01"
    unfolding last by (cases "L = termMonths inputs") simp_all
  show "remainingBalance (last s) = 0 \<longleftrightarrow> length s = termMonths inputs"
  proof
    assume z: "remainingBalance (last s) = 0"
    show "length s = termMonths inputs"
    proof (rule ccontr)
      assume "length s \<noteq> termMonths inputs"
      with len have "L < termMonths inputs" by (simp add: L_def)
      from early[OF this] z bp show False by (simp add: last)
    qed
  next
    assume "length s = termMonths inputs"
    with full show "remainingBalance (last s) = 0" by (simp add: last L_def)
  qed
  assume big: "0.01 * (1 + annualRate inputs / 100 / 12) < bp"
  show "length s = termMonths inputs"
  proof (rule ccontr)
    assume "length s \<noteq> termMonths inputs"
    with len have "L < termMonths inputs" by (simp add: L_def)
    from early[OF this] have e: "runBal None r bp 1 (principal inputs) L \<le> 0.01"
      "bp \<le> runBal None r bp 1 (principal inputs) L * (1 + r)" by simp_all
    from r have "0 \<le> 1 + r" by simp
    from mult_right_mono[OF e(1) this] e(2) have "bp \<le> 0.01 * (1 + r)" by simp
    with big show False by (simp add: r_def)
  qed
qed




text \<open>
  Claim C9. For principal 300000, annual rate 6.5 and term 360, the monthly payment is
  within 0.01 of 1896.20, and the base schedule has exactly 360 rows with a final
  remainingBalance of 0.
\<close>

theorem example_loan_schedule:
  "\<bar>calculateMonthlyPayment 300000 6.5 360 - 1896.20\<bar> \<le> 0.01
   \<and> length (generateAmortizationSchedule
        \<lparr> principal = 300000, annualRate = 6.5, termMonths = 360, startDate = d,
          extraMonthlyPayment = x \<rparr> None) = 360
   \<and> remainingBalance (last (generateAmortizationSchedule
        \<lparr> principal = 300000, annualRate = 6.5, termMonths = 360, startDate = d,
          extraMonthlyPayment = x \<rparr> None)) = 0"
proof -
  define I where "I = \<lparr> principal = 300000, annualRate = 6.5, termMonths = 360, startDate = d,
          extraMonthlyPayment = x \<rparr>"
  have P: "0.01 < principal I" and R: "0 \<le> annualRate I" and N: "1 \<le> termMonths I"
    by (simp_all add: I_def)
  have a: "\<bar>calculateMonthlyPayment 300000 6.5 360 - 1896.20\<bar> \<le> 0.01"
    unfolding abs_le_iff using example_payment_bounds by simp
  from example_payment_bounds
  have "0.01 * (1 + annualRate I / 100 / 12)
          < calculateMonthlyPayment (principal I) (annualRate I) (termMonths I)"
    by (simp add: I_def)
  from base_schedule_shape(6)[OF P R N this]
  have len: "length (generateAmortizationSchedule I None) = termMonths I" .
  with base_schedule_shape(5)[OF P R N]
  have "remainingBalance (last (generateAmortizationSchedule I None)) = 0" by simp
  with a len show ?thesis by (simp add: I_def)
qed

section \<open>Extra payments against the base schedule\<close>

lemma scheduleLoop_interest_nonneg:
  assumes "0 \<le> r"
  shows "0 \<le> sum_list (map interestPaid (scheduleLoop inputs overrides r bp m rb))"
proof (rule sum_list_nonneg)
  fix v assume "v \<in> set (map interestPaid (scheduleLoop inputs overrides r bp m rb))"
  then obtain i where i: "i < length (scheduleLoop inputs overrides r bp m rb)"
    and v: "v = interestPaid (scheduleLoop inputs overrides r bp m rb ! i)"
    by (auto simp: in_set_conv_nth)
  from scheduleLoop_nth[OF i] have "v = runBal overrides r bp m rb i * r"
    and "0 \<le> runBal overrides r bp m rb i" by (simp_all add: v stepRow_def)
  with assms show "0 \<le> v" by simp
qed

text \<open>One period: a lower starting balance and a non-negative extra give a lower balance.\<close>

lemma step_balance_mono:
  fixes r bp e rb rb' :: real
  assumes "0 \<le> r" "0 \<le> e" "rb' \<le> rb"
  shows "rb' - min (bp - rb' * r + e) rb' \<le> rb - min (bp - rb * r) rb"
proof -
  from assms have "rb' * r \<le> rb * r" by (intro mult_right_mono)
  with assms show ?thesis by (simp add: min_def)
qed

lemma scenario_dominated:
  fixes r bp :: real
  assumes r: "0 \<le> r"
    and e: "\<And>k. m0 \<le> k \<Longrightarrow> k \<le> termMonths inputs \<Longrightarrow> 0 \<le> requestedExtra overrides k"
  shows "m0 \<le> m \<Longrightarrow> rb' \<le> rb \<Longrightarrow>
     length (scheduleLoop inputs overrides r bp m rb') \<le> length (scheduleLoop inputs None r bp m rb)
   \<and> sum_list (map interestPaid (scheduleLoop inputs overrides r bp m rb'))
       \<le> sum_list (map interestPaid (scheduleLoop inputs None r bp m rb))"
proof (induction "termMonths inputs + 1 - m" arbitrary: m rb rb')
  case 0
  then have "scheduleLoop inputs overrides r bp m rb' = []" "scheduleLoop inputs None r bp m rb = []"
    by (simp_all add: scheduleLoop_Nil_iff)
  then show ?case by simp
next
  case (Suc n)
  from Suc.hyps(2) have n: "n = termMonths inputs + 1 - (m + 1)" and m: "m \<le> termMonths inputs"
    by simp_all
  let ?nb = "rb - stepPrincipal None r bp m rb"
  let ?ns = "rb' - stepPrincipal overrides r bp m rb'"
  have mono: "?ns \<le> ?nb"
    using step_balance_mono[OF r e[OF Suc.prems(1) m] Suc.prems(2), of bp]
    by (simp add: stepPrincipal_def requestedExtra_None)
  show ?case
  proof (cases "rb' > 0.01")
    case False
    then have "scheduleLoop inputs overrides r bp m rb' = []" by (simp add: scheduleLoop_Nil_iff)
    with scheduleLoop_interest_nonneg[OF r, of inputs None bp m rb] show ?thesis by simp
  next
    case True
    with Suc.prems(2) have rb: "rb > 0.01" by simp
    from r Suc.prems(2) have int: "rb' * r \<le> rb * r" by (intro mult_right_mono)
    show ?thesis
    proof (cases "?ns \<le> 0.01")
      case True
      with \<open>rb' > 0.01\<close> m
      have s: "scheduleLoop inputs overrides r bp m rb' = [stepRow inputs overrides r bp m rb']"
        by (subst scheduleLoop_unfold) simp
      have "\<exists>rest. scheduleLoop inputs None r bp m rb = stepRow inputs None r bp m rb # rest
          \<and> 0 \<le> sum_list (map interestPaid rest)"
      proof (cases "?nb \<le> 0.01")
        case True
        with rb m have "scheduleLoop inputs None r bp m rb = [stepRow inputs None r bp m rb]"
          by (subst scheduleLoop_unfold) simp
        then show ?thesis by simp
      next
        case False
        with rb m have "scheduleLoop inputs None r bp m rb
            = stepRow inputs None r bp m rb # scheduleLoop inputs None r bp (m + 1) ?nb"
          by (subst scheduleLoop_unfold) simp
        with scheduleLoop_interest_nonneg[OF r, of inputs None bp "m + 1" ?nb]
        show ?thesis by simp
      qed
      then obtain rest where b: "scheduleLoop inputs None r bp m rb = stepRow inputs None r bp m rb # rest"
        and rest: "0 \<le> sum_list (map interestPaid rest)" by blast
      from int rest show ?thesis unfolding s b by (simp add: stepRow_def)
    next
      case False
      with mono have nb: "\<not> ?nb \<le> 0.01" by simp
      from False \<open>rb' > 0.01\<close> m
      have s: "scheduleLoop inputs overrides r bp m rb'
          = stepRow inputs overrides r bp m rb' # scheduleLoop inputs overrides r bp (m + 1) ?ns"
        by (subst scheduleLoop_unfold) simp
      from nb rb m
      have b: "scheduleLoop inputs None r bp m rb
          = stepRow inputs None r bp m rb # scheduleLoop inputs None r bp (m + 1) ?nb"
        by (subst scheduleLoop_unfold) simp
      from Suc.prems(1) have "m0 \<le> m + 1" by simp
      from Suc.hyps(1)[OF n this mono] int show ?thesis
        unfolding s b by (simp add: stepRow_def)
    qed
  qed
qed

lemma summary_interest:
  "totalInterestPaid (calculateSummary s b) = sum_list (map interestPaid s)"
  by (cases b) (simp_all add: calculateSummary_def Let_def foldl_add_sum_list)

text \<open>Two loans of 1200 over 2 months with a lump sum of 100 in month 1, evaluated: at
  12% with a recurring extra of -500, and at -12% with no recurring extra.\<close>

lemma example_negative_extra:
  "sum_list (map interestPaid (generateAmortizationSchedule
      \<lparr> principal = 1200, annualRate = 12, termMonths = 2, startDate = 0,
        extraMonthlyPayment = 0 \<rparr> None)) = 1208 / 67"
  "sum_list (map interestPaid (generateAmortizationSchedule
      \<lparr> principal = 1200, annualRate = 12, termMonths = 2, startDate = 0,
        extraMonthlyPayment = 0 \<rparr>
      (Some \<lparr> extraMonthlyPrincipal = - 500, lumpSumPayments = [1 \<mapsto> 100] \<rparr>))) = 1476 / 67"
proof -
  have bp: "calculateMonthlyPayment 1200 12 2 = 40804 / 67"
    by (simp add: payment_pos_rate power2_eq_square)
  show "sum_list (map interestPaid (generateAmortizationSchedule
      \<lparr> principal = 1200, annualRate = 12, termMonths = 2, startDate = 0,
        extraMonthlyPayment = 0 \<rparr> None)) = 1208 / 67"
    by (simp add: generate_unfold bp scheduleLoop_unfold stepRow_def stepPrincipal_def
        requestedExtra_def)
  show "sum_list (map interestPaid (generateAmortizationSchedule
      \<lparr> principal = 1200, annualRate = 12, termMonths = 2, startDate = 0,
        extraMonthlyPayment = 0 \<rparr>
      (Some \<lparr> extraMonthlyPrincipal = - 500, lumpSumPayments = [1 \<mapsto> 100] \<rparr>))) = 1476 / 67"
    by (simp add: generate_unfold bp scheduleLoop_unfold stepRow_def stepPrincipal_def
        requestedExtra_def)
qed

lemma example_negative_rate:
  "sum_list (map interestPaid (generateAmortizationSchedule
      \<lparr> principal = 1200, annualRate = - 12, termMonths = 2, startDate = 0,
        extraMonthlyPayment = 0 \<rparr> None)) = - (3576 / 199)"
  "sum_list (map interestPaid (generateAmortizationSchedule
      \<lparr> principal = 1200, annualRate = - 12, termMonths = 2, startDate = 0,
        extraMonthlyPayment = 0 \<rparr>
      (Some \<lparr> extraMonthlyPrincipal = 0, lumpSumPayments = [1 \<mapsto> 100] \<rparr>))) = - (3377 / 199)"
proof -
  have bp: "calculateMonthlyPayment 1200 (- 12) 2 = 117612 / 199"
    by (simp add: payment_pos_rate power2_eq_square)
  show "sum_list (map interestPaid (generateAmortizationSchedule
      \<lparr> principal = 1200, annualRate = - 12, termMonths = 2, startDate = 0,
        extraMonthlyPayment = 0 \<rparr> None)) = - (3576 / 199)"
    by (simp add: generate_unfold bp scheduleLoop_unfold stepRow_def stepPrincipal_def
        requestedExtra_def)
  show "sum_list (map interestPaid (generateAmortizationSchedule
      \<lparr> principal = 1200, annualRate = - 12, termMonths = 2, startDate = 0,
        extraMonthlyPayment = 0 \<rparr>
      (Some \<lparr> extraMonthlyPrincipal = 0, lumpSumPayments = [1 \<mapsto> 100] \<rparr>))) = - (3377 / 199)"
    by (simp add: generate_unfold bp scheduleLoop_unfold stepRow_def stepPrincipal_def
        requestedExtra_def)
qed

text \<open>
  Claim C5, amended. For every loan with non-negative rate, every scenario override whose
  requested extra principal (extraMonthlyPrincipal plus the lump sum of the period) is
  non-negative in every period of the term, and so every override with
  extraMonthlyPrincipal > 0 or a positive lump sum and no negative amount, yields a schedule
  whose row count (monthsToPayoff) is at most the base schedule's row count and whose
  totalInterestPaid is at most the base schedule's totalInterestPaid.
\<close>

theorem extra_payments_never_hurt:
  assumes "0 \<le> annualRate inputs"
    and "\<forall>k. 1 \<le> k \<and> k \<le> termMonths inputs \<longrightarrow> 0 \<le> requestedExtra (Some ov) k"
  shows "let base = generateAmortizationSchedule inputs None;
             s = generateAmortizationSchedule inputs (Some ov) in
      monthsToPayoff (calculateSummary s (Some base)) \<le> monthsToPayoff (calculateSummary base None)
    \<and> totalInterestPaid (calculateSummary s (Some base))
        \<le> totalInterestPaid (calculateSummary base None)"
proof -
  let ?r = "annualRate inputs / 100 / 12"
  let ?bp = "calculateMonthlyPayment (principal inputs) (annualRate inputs) (termMonths inputs)"
  from assms(1) have r: "0 \<le> ?r" by simp
  have e: "0 \<le> requestedExtra (Some ov) k" if "1 \<le> k" "k \<le> termMonths inputs" for k
    using assms(2) that by blast
  from scenario_dominated[OF r e, where m = 1 and rb' = "principal inputs"
      and rb = "principal inputs" and bp = ?bp]
  have "length (generateAmortizationSchedule inputs (Some ov))
          \<le> length (generateAmortizationSchedule inputs None)"
    and "sum_list (map interestPaid (generateAmortizationSchedule inputs (Some ov)))
          \<le> sum_list (map interestPaid (generateAmortizationSchedule inputs None))"
    by (simp_all add: generate_unfold)
  then show ?thesis
    by (simp add: Let_def calculateSummary_def foldl_add_sum_list)
qed

theorem extra_payments_never_hurt_witness:
  "let I = \<lparr> principal = 100, annualRate = 0, termMonths = 3, startDate = 0,
             extraMonthlyPayment = 0 \<rparr>;
       ov = \<lparr> extraMonthlyPrincipal = 0, lumpSumPayments = [1 \<mapsto> 1000] \<rparr>;
       base = generateAmortizationSchedule I None;
       s = generateAmortizationSchedule I (Some ov) in
     0 \<le> annualRate I
   \<and> (\<forall>k. 1 \<le> k \<and> k \<le> termMonths I \<longrightarrow> 0 \<le> requestedExtra (Some ov) k)
   \<and> monthsToPayoff (calculateSummary s (Some base)) \<le> monthsToPayoff (calculateSummary base None)
   \<and> totalInterestPaid (calculateSummary s (Some base))
       \<le> totalInterestPaid (calculateSummary base None)"
proof -
  let ?I = "\<lparr> principal = 100, annualRate = 0, termMonths = 3, startDate = 0,
              extraMonthlyPayment = 0 \<rparr>"
  let ?ov = "\<lparr> extraMonthlyPrincipal = 0, lumpSumPayments = [1 \<mapsto> 1000] \<rparr>"
  have h: "\<forall>k. 1 \<le> k \<and> k \<le> termMonths ?I \<longrightarrow> 0 \<le> requestedExtra (Some ?ov) k"
    by (simp add: requestedExtra_def)
  from extra_payments_never_hurt[of ?I ?ov, OF _ h] h show ?thesis
    by (simp add: Let_def)
qed

text \<open>The claim as written asks only for a positive recurring extra or one positive lump
  sum, on any loan. With a lump sum of 100 in month 1 on a loan of 1200 over 2 months, a
  recurring extra of -500 at 12% raises the total interest from 1208/67 to 1476/67, and a
  rate of -12% raises it from -3576/199 to -3377/199.\<close>

theorem positive_lump_sum_more_interest:
  "(0::real) < 100
   \<and> lumpSumPayments \<lparr> extraMonthlyPrincipal = - 500, lumpSumPayments = [1 \<mapsto> 100] \<rparr> 1 = Some 100
   \<and> totalInterestPaid (calculateSummary
         (generateAmortizationSchedule
            \<lparr> principal = 1200, annualRate = 12, termMonths = 2, startDate = 0,
              extraMonthlyPayment = 0 \<rparr> None) None)
       < totalInterestPaid (calculateSummary
         (generateAmortizationSchedule
            \<lparr> principal = 1200, annualRate = 12, termMonths = 2, startDate = 0,
              extraMonthlyPayment = 0 \<rparr>
            (Some \<lparr> extraMonthlyPrincipal = - 500, lumpSumPayments = [1 \<mapsto> 100] \<rparr>))
         (Some (generateAmortizationSchedule
            \<lparr> principal = 1200, annualRate = 12, termMonths = 2, startDate = 0,
              extraMonthlyPayment = 0 \<rparr> None)))
   \<and> lumpSumPayments \<lparr> extraMonthlyPrincipal = 0, lumpSumPayments = [1 \<mapsto> 100] \<rparr> 1 = Some 100
   \<and> totalInterestPaid (calculateSummary
         (generateAmortizationSchedule
            \<lparr> principal = 1200, annualRate = - 12, termMonths = 2, startDate = 0,
              extraMonthlyPayment = 0 \<rparr> None) None)
       < totalInterestPaid (calculateSummary
         (generateAmortizationSchedule
            \<lparr> principal = 1200, annualRate = - 12, termMonths = 2, startDate = 0,
              extraMonthlyPayment = 0 \<rparr>
            (Some \<lparr> extraMonthlyPrincipal = 0, lumpSumPayments = [1 \<mapsto> 100] \<rparr>))
         (Some (generateAmortizationSchedule
            \<lparr> principal = 1200, annualRate = - 12, termMonths = 2, startDate = 0,
              extraMonthlyPayment = 0 \<rparr> None)))"
  unfolding summary_interest example_negative_extra example_negative_rate by simp

end
